theory Spec2Isabelle
  imports Main
begin

section \<open>The matching tree of package route\<close>

text \<open>
  A \<^verbatim>\<open>*Router\<close> is an address into a store of Router structs. The store is a list:
  the address of a struct is its index, and \<^verbatim>\<open>&Router{}\<close> appends a zero struct.
  A nil pointer is \<open>None\<close>. Handlers are opaque values of type \<open>'h\<close>; a nil
  handler is \<open>None\<close>.
\<close>

type_synonym addr = nat

record 'h Router =
  matchers :: "(string \<rightharpoonup> addr) option"
  varName :: string
  varRouter :: "addr option"
  handler :: "'h option"
  fallbackRouter :: "addr option"

type_synonym 'h heap = "'h Router list"

definition zero_Router :: "'h Router" where
  "zero_Router =
     \<lparr>matchers = None, varName = [], varRouter = None, handler = None, fallbackRouter = None\<rparr>"

definition deref :: "'h heap \<Rightarrow> addr \<Rightarrow> 'h Router option" where
  "deref s r = (if r < length s then Some (s ! r) else None)"

text \<open>
  Every panic of the source is an error value. \<open>Invalid_pointer\<close> stands for an
  address outside the store; \<open>Nil_map_assign\<close> is Go's panic on an assignment to an
  entry of a nil map; \<open>Index_out_of_range\<close> is the panic of \<^verbatim>\<open>path[0]\<close> on the
  empty string.
\<close>

datatype error =
  Overlapping_vars
  | Overlapping_fallback
  | Duplicate_handler
  | Bad_path
  | Index_out_of_range
  | Nil_map_assign
  | Invalid_pointer

subsection \<open>strings.Split and strings.Join on the separator "/"\<close>

fun split_slash :: "string \<Rightarrow> string list" where
  "split_slash [] = [[]]"
| "split_slash (c # cs) =
     (if c = CHR ''/'' then [] # split_slash cs
      else (case split_slash cs of [] \<Rightarrow> [[c]] | w # ws \<Rightarrow> (c # w) # ws))"

fun join_slash :: "string list \<Rightarrow> string" where
  "join_slash [] = []"
| "join_slash [x] = x"
| "join_slash (x # y # ys) = x @ CHR ''/'' # join_slash (y # ys)"

subsection \<open>lookup\<close>

text \<open>
  The state a lookup runs in: the store of Router structs and the map \<^verbatim>\<open>env\<close> refers
  to (\<open>None\<close> for a nil map). A call returns its outcome (a panic, or the handler, nil
  as \<open>None\<close>) together with the state it leaves.
\<close>

record 'h state =
  routers :: "'h heap"
  env :: "(string \<rightharpoonup> string) option"

type_synonym ('a, 'h) outcome = "(error + 'a) \<times> 'h state"

fun lookup :: "addr \<Rightarrow> string list \<Rightarrow> 'h state \<Rightarrow> ('h option, 'h) outcome" where
  "lookup r [] st =
     (case deref (routers st) r of
        None \<Rightarrow> (Inl Invalid_pointer, st)
      | Some nd \<Rightarrow> (Inr (handler nd), st))"
| "lookup r (seg # rest) st =
     (case (case deref (routers st) r of
              None \<Rightarrow> (Inl Invalid_pointer, st)
            | Some nd \<Rightarrow>
                (case matchers nd of
                   None \<Rightarrow> (Inr None, st)
                 | Some m \<Rightarrow>
                     (case m seg of
                        None \<Rightarrow> (Inr None, st)
                      | Some r2 \<Rightarrow> lookup r2 rest st))) of
        (Inl e, st1) \<Rightarrow> (Inl e, st1)
      | (Inr (Some h), st1) \<Rightarrow> (Inr (Some h), st1)
      | (Inr None, st1) \<Rightarrow>
          (case (if seg \<noteq> [] then
                   (case deref (routers st1) r of
                      None \<Rightarrow> (Inl Invalid_pointer, st1)
                    | Some nd \<Rightarrow>
                        (case varRouter nd of
                           None \<Rightarrow> (Inr None, st1)
                         | Some vr \<Rightarrow>
                             (case env st1 of
                                None \<Rightarrow> (Inl Nil_map_assign, st1)
                              | Some e \<Rightarrow>
                                  lookup vr rest (st1\<lparr>env := Some (e(varName nd \<mapsto> seg))\<rparr>))))
                 else (Inr None, st1)) of
             (Inl e, st2) \<Rightarrow> (Inl e, st2)
           | (Inr (Some h), st2) \<Rightarrow> (Inr (Some h), st2)
           | (Inr None, st2) \<Rightarrow>
               (case deref (routers st2) r of
                  None \<Rightarrow> (Inl Invalid_pointer, st2)
                | Some nd \<Rightarrow>
                    (case fallbackRouter nd of
                       None \<Rightarrow> (Inr None, st2)
                     | Some fr \<Rightarrow>
                         (case env st2 of
                            None \<Rightarrow> (Inl Nil_map_assign, st2)
                          | Some e \<Rightarrow>
                              (let st3 = st2\<lparr>env := Some (e(''*'' \<mapsto> join_slash (seg # rest)))\<rparr>
                               in (case deref (routers st3) fr of
                                     None \<Rightarrow> (Inl Invalid_pointer, st3)
                                   | Some fnd \<Rightarrow> (Inr (handler fnd), st3))))))))"

text \<open>lookupPath: the request path must start with a slash.\<close>

definition lookupPath :: "addr \<Rightarrow> string \<Rightarrow> 'h state \<Rightarrow> ('h option, 'h) outcome" where
  "lookupPath r path st =
     (case path of
        [] \<Rightarrow> (Inl Index_out_of_range, st)
      | c # cs \<Rightarrow>
          if c \<noteq> CHR ''/'' then (Inl Bad_path, st)
          else lookup r (split_slash cs) st)"

subsection \<open>route, Route and FuncE\<close>

text \<open>
  Registration runs on the store alone. A call returns its outcome (a panic, or the
  address of the Router it reached) together with the store it leaves.
\<close>

fun route :: "addr \<Rightarrow> string list \<Rightarrow> 'h heap \<Rightarrow> (error + addr) \<times> 'h heap" where
  "route r [] s = (Inr r, s)"
| "route r (part # rest) s =
     (case deref s r of
        None \<Rightarrow> (Inl Invalid_pointer, s)
      | Some nd \<Rightarrow>
          if part \<noteq> [] \<and> hd part = CHR '':'' then
            (let name = tl part in
             if varName nd \<noteq> [] \<and> name \<noteq> varName nd then (Inl Overlapping_vars, s)
             else
               (case varRouter nd of
                  None \<Rightarrow>
                    (let a = length s;
                         s1 = s[r := nd\<lparr>varName := name, varRouter := Some a\<rparr>] @ [zero_Router]
                     in route a rest s1)
                | Some vr \<Rightarrow> route vr rest s))
          else if part = ''*'' then
            (case fallbackRouter nd of
               Some fr \<Rightarrow> (Inl Overlapping_fallback, s)
             | None \<Rightarrow>
                 (let a = length s
                  in (Inr a, s[r := nd\<lparr>fallbackRouter := Some a\<rparr>] @ [zero_Router])))
          else
            (let m = (case matchers nd of None \<Rightarrow> Map.empty | Some m \<Rightarrow> m)
             in (case m part of
                   None \<Rightarrow>
                     (let a = length s
                      in route a rest
                           (s[r := nd\<lparr>matchers := Some (m(part \<mapsto> a))\<rparr>] @ [zero_Router]))
                 | Some r2 \<Rightarrow> route r2 rest (s[r := nd\<lparr>matchers := Some m\<rparr>]))))"

definition Route :: "addr \<Rightarrow> string \<Rightarrow> 'h heap \<Rightarrow> (error + addr) \<times> 'h heap" where
  "Route r path s =
     route r (split_slash (if path \<noteq> [] \<and> hd path = CHR ''/'' then tl path else path)) s"

definition FuncE :: "addr \<Rightarrow> 'h option \<Rightarrow> 'h heap \<Rightarrow> (error + unit) \<times> 'h heap" where
  "FuncE r f s =
     (case deref s r of
        None \<Rightarrow> (Inl Invalid_pointer, s)
      | Some nd \<Rightarrow>
          (case handler nd of
             Some g \<Rightarrow> (Inl Duplicate_handler, s)
           | None \<Rightarrow> (Inr (), s[r := nd\<lparr>handler := f\<rparr>])))"

text \<open>
  Registering a handler at a path, as in \<^verbatim>\<open>r.Route(path).FuncE(f)\<close>: the handler is
  attached to the Router that Route returns.
\<close>

definition register :: "addr \<Rightarrow> string \<Rightarrow> 'h \<Rightarrow> 'h heap \<Rightarrow> (error + unit) \<times> 'h heap" where
  "register r path f s =
     (case Route r path s of
        (Inl e, s1) \<Rightarrow> (Inl e, s1)
      | (Inr a, s1) \<Rightarrow> FuncE a (Some f) s1)"

text \<open>The zero router \<^verbatim>\<open>&Router{}\<close> alone in the store, at address 0.\<close>

definition new_tree :: "'h heap" where
  "new_tree = [zero_Router]"

subsection \<open>The three alternatives of a lookup step, in the words of the design\<close>

text \<open>
  The design describes a lookup at a node with segments remaining as three alternatives
  tried in a fixed order. Each alternative is written here on its own, and
  \<open>try_in_order\<close> runs a list of alternatives: the next one runs only when the one
  before it returned no handler, and an empty list reports no match.
\<close>

definition literal_alt :: "addr \<Rightarrow> string \<Rightarrow> string list \<Rightarrow> 'h state \<Rightarrow> ('h option, 'h) outcome" where
  "literal_alt r seg rest st =
     (case deref (routers st) r of
        None \<Rightarrow> (Inl Invalid_pointer, st)
      | Some nd \<Rightarrow>
          (case matchers nd of
             None \<Rightarrow> (Inr None, st)
           | Some m \<Rightarrow>
               (case m seg of
                  None \<Rightarrow> (Inr None, st)
                | Some r2 \<Rightarrow> lookup r2 rest st)))"

definition variable_alt :: "addr \<Rightarrow> string \<Rightarrow> string list \<Rightarrow> 'h state \<Rightarrow> ('h option, 'h) outcome" where
  "variable_alt r seg rest st1 =
     (if seg \<noteq> [] then
        (case deref (routers st1) r of
           None \<Rightarrow> (Inl Invalid_pointer, st1)
         | Some nd \<Rightarrow>
             (case varRouter nd of
                None \<Rightarrow> (Inr None, st1)
              | Some vr \<Rightarrow>
                  (case env st1 of
                     None \<Rightarrow> (Inl Nil_map_assign, st1)
                   | Some e \<Rightarrow>
                       lookup vr rest (st1\<lparr>env := Some (e(varName nd \<mapsto> seg))\<rparr>))))
      else (Inr None, st1))"

definition wildcard_alt :: "addr \<Rightarrow> string list \<Rightarrow> 'h state \<Rightarrow> ('h option, 'h) outcome" where
  "wildcard_alt r path st2 =
     (case deref (routers st2) r of
        None \<Rightarrow> (Inl Invalid_pointer, st2)
      | Some nd \<Rightarrow>
          (case fallbackRouter nd of
             None \<Rightarrow> (Inr None, st2)
           | Some fr \<Rightarrow>
               (case env st2 of
                  None \<Rightarrow> (Inl Nil_map_assign, st2)
                | Some e \<Rightarrow>
                    (let st3 = st2\<lparr>env := Some (e(''*'' \<mapsto> join_slash path))\<rparr>
                     in (case deref (routers st3) fr of
                           None \<Rightarrow> (Inl Invalid_pointer, st3)
                         | Some fnd \<Rightarrow> (Inr (handler fnd), st3))))))"

fun try_in_order :: "('h state \<Rightarrow> ('h option, 'h) outcome) list \<Rightarrow> 'h state \<Rightarrow> ('h option, 'h) outcome" where
  "try_in_order [] st = (Inr None, st)"
| "try_in_order (alt # alts) st =
     (case alt st of
        (Inl e, st1) \<Rightarrow> (Inl e, st1)
      | (Inr (Some h), st1) \<Rightarrow> (Inr (Some h), st1)
      | (Inr None, st1) \<Rightarrow> try_in_order alts st1)"

subsection \<open>Segment kinds and the literal child of a node\<close>

text \<open>The three kinds of segment route tells apart, by the tests it makes.\<close>

definition variable_segment :: "string \<Rightarrow> bool" where
  "variable_segment part = (part \<noteq> [] \<and> hd part = CHR '':'')"

definition wildcard_segment :: "string \<Rightarrow> bool" where
  "wildcard_segment part = (part = ''*'')"

definition literal_segment :: "string \<Rightarrow> bool" where
  "literal_segment part = (\<not> variable_segment part \<and> \<not> wildcard_segment part)"

text \<open>\<^verbatim>\<open>r.matchers[seg]\<close>, read in a store: a nil map and a missing key both give nil.\<close>

definition child :: "'h heap \<Rightarrow> addr \<Rightarrow> string \<Rightarrow> addr option" where
  "child s r seg =
     (case deref s r of
        None \<Rightarrow> None
      | Some nd \<Rightarrow> (case matchers nd of None \<Rightarrow> None | Some m \<Rightarrow> m seg))"

section \<open>Lookup: one step, and the frame of the store\<close>

text \<open>The step equations are unfolded by name, one step at a time.\<close>

declare lookup.simps(2) [simp del]
declare route.simps(2) [simp del]

lemma lookup_Cons:
  "lookup r (seg # rest) st =
     (case literal_alt r seg rest st of
        (Inl e, st1) \<Rightarrow> (Inl e, st1)
      | (Inr (Some h), st1) \<Rightarrow> (Inr (Some h), st1)
      | (Inr None, st1) \<Rightarrow>
          (case variable_alt r seg rest st1 of
             (Inl e, st2) \<Rightarrow> (Inl e, st2)
           | (Inr (Some h), st2) \<Rightarrow> (Inr (Some h), st2)
           | (Inr None, st2) \<Rightarrow> wildcard_alt r (seg # rest) st2))"
  unfolding literal_alt_def variable_alt_def wildcard_alt_def
  by (rule lookup.simps(2))

lemma lookup_step_alts:
  "lookup r (seg # rest) st =
     try_in_order [literal_alt r seg rest, variable_alt r seg rest, wildcard_alt r (seg # rest)] st"
proof -
  have w: "try_in_order [wildcard_alt r (seg # rest)] s = wildcard_alt r (seg # rest) s"
    for s :: "'a state"
    by (simp split: prod.split sum.split option.split)
  have v: "try_in_order [variable_alt r seg rest, wildcard_alt r (seg # rest)] s =
       (case variable_alt r seg rest s of
          (Inl e, st2) \<Rightarrow> (Inl e, st2)
        | (Inr (Some h), st2) \<Rightarrow> (Inr (Some h), st2)
        | (Inr None, st2) \<Rightarrow> wildcard_alt r (seg # rest) st2)"
    for s :: "'a state"
    unfolding try_in_order.simps(2)[of "variable_alt r seg rest"] w ..
  show ?thesis
    unfolding lookup_Cons try_in_order.simps(2)[of "literal_alt r seg rest"] v ..
qed

lemma try_in_order_frame:
  "(\<And>alt s. alt \<in> set alts \<Longrightarrow> routers (snd (alt s)) = routers s) \<Longrightarrow>
   routers (snd (try_in_order alts st)) = routers st"
proof (induction alts arbitrary: st)
  case Nil
  then show ?case by simp
next
  case (Cons alt alts)
  obtain out st1 where a: "alt st = (out, st1)" by (cases "alt st")
  have f: "routers st1 = routers st" using Cons.prems[of alt st] a by simp
  have r: "routers (snd (try_in_order alts st1)) = routers st1"
    using Cons.IH[of st1] Cons.prems by simp
  show ?case using a f r
    by (cases out) (auto split: option.split)
qed

lemma lookup_frame: "routers (snd (lookup r path st)) = routers st"
proof (induction path arbitrary: r st)
  case Nil
  then show ?case by (simp split: option.split)
next
  case (Cons seg rest)
  have l: "routers (snd (literal_alt r seg rest s)) = routers s" for s :: "'a state"
    unfolding literal_alt_def using Cons.IH by (simp split: option.split)
  have v: "routers (snd (variable_alt r seg rest s)) = routers s" for s :: "'a state"
    unfolding variable_alt_def using Cons.IH by (simp split: option.split)
  have w: "routers (snd (wildcard_alt r (seg # rest) s)) = routers s" for s :: "'a state"
    unfolding wildcard_alt_def by (simp add: Let_def split: option.split)
  show ?case
    unfolding lookup_step_alts
    by (rule try_in_order_frame) (auto simp: l v w)
qed

lemma literal_alt_frame: "routers (snd (literal_alt r seg rest st)) = routers st"
  by (simp add: literal_alt_def lookup_frame split: option.split)

lemma variable_alt_frame: "routers (snd (variable_alt r seg rest st)) = routers st"
  by (simp add: variable_alt_def lookup_frame split: option.split)

lemma wildcard_alt_frame: "routers (snd (wildcard_alt r path st)) = routers st"
  by (simp add: wildcard_alt_def Let_def split: option.split)

text \<open>
  C9. A lookup never mutates the tree: whatever the store, the node, the path and the
  capture map, and whether the call returns or panics, the store of Router structs it
  leaves is the store it started in. The same holds for lookupPath. Only the capture map
  can differ.
\<close>

theorem lookup_leaves_store_unchanged:
  "routers (snd (lookup r path st)) = routers st \<and>
   routers (snd (lookupPath r p st)) = routers st"
  by (simp add: lookup_frame lookupPath_def split: list.split)

text \<open>
  C2. At a node with a non-empty remaining path, lookup is the ordered trial of the
  literal match, then the variable match, then the wildcard fallback: an alternative runs
  only when every earlier one returned no handler, in the state the earlier ones left,
  and when none returns a handler the node reports no match.
\<close>

theorem lookup_tries_literal_variable_wildcard:
  "lookup r (seg # rest) st =
     try_in_order [literal_alt r seg rest, variable_alt r seg rest, wildcard_alt r (seg # rest)] st"
  by (rule lookup_step_alts)

section \<open>Registration: the steps of route and the literal children\<close>

lemma deref_SomeD: "deref s r = Some nd \<Longrightarrow> r < length s \<and> nd = s ! r"
  by (simp add: deref_def split: if_splits)

lemma child_Some_valid: "child s i k = Some x \<Longrightarrow> i < length s"
  by (simp add: child_def deref_def split: if_splits)

lemma child_upd_same:
  "r < length s \<Longrightarrow>
   child (s[r := nd'] @ zs) r k = (case matchers nd' of None \<Rightarrow> None | Some m \<Rightarrow> m k)"
  by (simp add: child_def deref_def nth_append)

lemma child_upd_other:
  "i \<noteq> r \<Longrightarrow> i < length s \<Longrightarrow> child (s[r := nd'] @ zs) i k = child s i k"
  by (simp add: child_def deref_def nth_append)

lemma child_at:
  "deref s r = Some nd \<Longrightarrow> child s r k = (case matchers nd of None \<Rightarrow> None | Some m \<Rightarrow> m k)"
  by (simp add: child_def)

lemma child_upd_mono:
  assumes d: "deref s r = Some nd"
    and m: "\<And>y. (case matchers nd of None \<Rightarrow> None | Some m \<Rightarrow> m k) = Some y \<Longrightarrow>
                (case matchers nd' of None \<Rightarrow> None | Some m \<Rightarrow> m k) = Some y"
    and c: "child s i k = Some x"
  shows "child (s[r := nd'] @ zs) i k = Some x"
proof (cases "i = r")
  case True
  have "r < length s" using d by (simp add: deref_SomeD)
  then show ?thesis using True c m[of x] child_at[OF d, of k] by (simp add: child_upd_same)
next
  case False
  then show ?thesis using c child_Some_valid[OF c] by (simp add: child_upd_other)
qed

lemma child_upd_handler:
  assumes "deref s a = Some nd"
  shows "child (s[a := nd\<lparr>handler := f\<rparr>]) i k = child s i k"
proof (cases "i = a")
  case True
  then show ?thesis using assms by (simp add: child_def deref_def split: if_splits)
next
  case False
  then show ?thesis by (simp add: child_def deref_def)
qed

lemma FuncE_child: "child (snd (FuncE a f s)) i k = child s i k"
  by (simp add: FuncE_def child_upd_handler split: option.split)

lemma literal_alt_child:
  "child (routers st) r seg = Some r2 \<Longrightarrow> literal_alt r seg rest st = lookup r2 rest st"
  by (auto simp: literal_alt_def child_def split: option.splits)

lemma route_invalid:
  "deref s r = None \<Longrightarrow> route r (part # rest) s = (Inl Invalid_pointer, s)"
  by (simp add: route.simps(2))

lemma route_var:
  "deref s r = Some nd \<Longrightarrow> variable_segment part \<Longrightarrow>
   route r (part # rest) s =
     (if varName nd \<noteq> [] \<and> tl part \<noteq> varName nd then (Inl Overlapping_vars, s)
      else (case varRouter nd of
              None \<Rightarrow>
                route (length s) rest
                  (s[r := nd\<lparr>varName := tl part, varRouter := Some (length s)\<rparr>] @ [zero_Router])
            | Some vr \<Rightarrow> route vr rest s))"
  by (simp add: route.simps(2) variable_segment_def Let_def split: option.split)

lemma route_star:
  "deref s r = Some nd \<Longrightarrow>
   route r (''*'' # rest) s =
     (case fallbackRouter nd of
        Some fr \<Rightarrow> (Inl Overlapping_fallback, s)
      | None \<Rightarrow> (Inr (length s), s[r := nd\<lparr>fallbackRouter := Some (length s)\<rparr>] @ [zero_Router]))"
  by (simp add: route.simps(2) Let_def split: option.split)

lemma route_lit:
  assumes "deref s r = Some nd" and "literal_segment part"
    and "m = (case matchers nd of None \<Rightarrow> Map.empty | Some m \<Rightarrow> m)"
  shows "route r (part # rest) s =
     (case m part of
        None \<Rightarrow>
          route (length s) rest
            (s[r := nd\<lparr>matchers := Some (m(part \<mapsto> length s))\<rparr>] @ [zero_Router])
      | Some r2 \<Rightarrow> route r2 rest (s[r := nd\<lparr>matchers := Some m\<rparr>]))"
proof -
  have v: "(part \<noteq> [] \<and> hd part = CHR '':'') = False"
    using assms(2) by (simp add: literal_segment_def variable_segment_def)
  have w: "(part = ''*'') = False"
    using assms(2) by (simp add: literal_segment_def wildcard_segment_def)
  show ?thesis
    unfolding assms(3) route.simps(2) v w using assms(1)
    by (simp add: Let_def split: option.split)
qed

lemma segment_kinds:
  obtains (var) "variable_segment part" | (star) "part = ''*''" | (lit) "literal_segment part"
  by (auto simp: literal_segment_def wildcard_segment_def)

lemma route_child_mono:
  "child s i k = Some x \<Longrightarrow> child (snd (route r parts s)) i k = Some x"
proof (induction parts arbitrary: r s)
  case Nil
  then show ?case by simp
next
  case (Cons part rest)
  note c = Cons.prems
  show ?case
  proof (cases "deref s r")
    case None
    then show ?thesis using c by (simp add: route_invalid)
  next
    case (Some nd)
    have keep: "child (s[r := nd'] @ zs) i k = Some x" if "matchers nd' = matchers nd" for nd' zs
      using child_upd_mono[OF Some _ c, of nd' zs] that by simp
    show ?thesis
    proof (cases part rule: segment_kinds)
      case var
      show ?thesis unfolding route_var[OF Some var]
        using c keep Cons.IH by (simp split: option.split)
    next
      case star
      show ?thesis unfolding star route_star[OF Some]
        using c keep by (simp split: option.split)
    next
      case lit
      define m where "m = (case matchers nd of None \<Rightarrow> Map.empty | Some m \<Rightarrow> m)"
      have grow: "child (s[r := nd\<lparr>matchers := Some (m(part \<mapsto> a))\<rparr>] @ zs) i k = Some x"
        if "m part = None" for a zs
        by (rule child_upd_mono[OF Some _ c]) (use that in \<open>auto simp: m_def split: option.splits\<close>)
      have "child (s[r := nd\<lparr>matchers := Some m\<rparr>] @ []) i k = Some x"
        by (rule child_upd_mono[OF Some _ c]) (auto simp: m_def split: option.splits)
      then have same: "child (s[r := nd\<lparr>matchers := Some m\<rparr>]) i k = Some x"
        by simp
      show ?thesis unfolding route_lit[OF Some lit m_def]
        using grow same Cons.IH by (simp split: option.split)
    qed
  qed
qed

lemma route_literal_step:
  assumes lit: "literal_segment part" and rt: "route r (part # rest) s = (Inr a, s1)"
  shows "\<exists>r2 s0. child s0 r part = Some r2 \<and> route r2 rest s0 = (Inr a, s1)"
proof (cases "deref s r")
  case None
  then show ?thesis using rt by (simp add: route_invalid)
next
  case (Some nd)
  then have rl: "r < length s" by (simp add: deref_SomeD)
  define m where "m = (case matchers nd of None \<Rightarrow> Map.empty | Some m \<Rightarrow> m)"
  note step = route_lit[OF Some lit m_def, of rest]
  show ?thesis
  proof (cases "m part")
    case None
    let ?s0 = "s[r := nd\<lparr>matchers := Some (m(part \<mapsto> length s))\<rparr>] @ [zero_Router]"
    have "route (length s) rest ?s0 = (Inr a, s1)"
      using rt step None by simp
    moreover have "child ?s0 r part = Some (length s)"
      using rl by (simp add: child_upd_same)
    ultimately show ?thesis by blast
  next
    case (Some r2)
    let ?s0 = "s[r := nd\<lparr>matchers := Some m\<rparr>]"
    have "route r2 rest ?s0 = (Inr a, s1)"
      using rt step Some by simp
    moreover have "child (?s0 @ []) r part = Some r2"
      using rl Some by (simp only: child_upd_same) simp
    ultimately show ?thesis by auto
  qed
qed

lemma route_FuncE_lookup:
  "list_all literal_segment parts \<Longrightarrow> route r parts s = (Inr a, s1) \<Longrightarrow>
   FuncE a (Some h) s1 = (Inr (), s') \<Longrightarrow> routers st = s' \<Longrightarrow>
   lookup r parts st = (Inr (Some h), st)"
proof (induction parts arbitrary: r s)
  case Nil
  from Nil.prems(2) have ar: "a = r" and ss: "s1 = s" by simp_all
  from Nil.prems(3) obtain nd where nd: "deref s r = Some nd"
    and s': "s' = s[r := nd\<lparr>handler := Some h\<rparr>]"
    unfolding ar ss by (auto simp: FuncE_def split: option.splits)
  have "deref (routers st) r = Some (nd\<lparr>handler := Some h\<rparr>)"
    using nd Nil.prems(4) s' by (simp add: deref_def split: if_splits)
  then show ?case by simp
next
  case (Cons part rest)
  from Cons.prems(1) have lit: "literal_segment part" and lits: "list_all literal_segment rest"
    by simp_all
  from route_literal_step[OF lit Cons.prems(2)] obtain r2 s0
    where ch: "child s0 r part = Some r2" and rt: "route r2 rest s0 = (Inr a, s1)"
    by blast
  have "child s1 r part = Some r2"
    using route_child_mono[OF ch, of r2 rest] rt by simp
  then have "child s' r part = Some r2"
    using FuncE_child[of a "Some h" s1 r part] Cons.prems(3) by simp
  then have "literal_alt r part rest st = lookup r2 rest st"
    using Cons.prems(4) by (simp add: literal_alt_child)
  also have "\<dots> = (Inr (Some h), st)"
    using Cons.IH[OF lits rt Cons.prems(3) Cons.prems(4)] .
  finally show ?case unfolding lookup_Cons by simp
qed

text \<open>The equations that evaluate a concrete registration or lookup.\<close>

lemmas run = lookup.simps route.simps Route_def register_def FuncE_def lookupPath_def
  new_tree_def zero_Router_def deref_def Let_def

text \<open>
  C1. For every path whose segments are all literal (none starts with a colon, none is
  the star): once the handler \<open>h\<close> has been registered at the path, in whatever tree
  the registration started, a lookup of the same path at the same router returns \<open>h\<close>
  and leaves the capture map as it was, so an empty map stays empty. This holds for
  \<^verbatim>\<open>route\<close> and \<^verbatim>\<open>lookup\<close> on every sequence of literal segments, and for
  \<^verbatim>\<open>r.Route(p).FuncE(h)\<close> and \<^verbatim>\<open>lookupPath\<close> on every path \<open>p\<close> that starts with
  the slash lookupPath insists on.
\<close>

theorem register_then_lookup:
  "(list_all literal_segment parts \<longrightarrow>
    route r parts s = (Inr a, s1) \<longrightarrow>
    FuncE a (Some h) s1 = (Inr (), s2) \<longrightarrow>
    lookup r parts \<lparr>routers = s2, env = e\<rparr> = (Inr (Some h), \<lparr>routers = s2, env = e\<rparr>)) \<and>
   (list_all literal_segment (split_slash q) \<longrightarrow>
    register r (CHR ''/'' # q) h s = (Inr (), s') \<longrightarrow>
    lookupPath r (CHR ''/'' # q) \<lparr>routers = s', env = e\<rparr> =
      (Inr (Some h), \<lparr>routers = s', env = e\<rparr>))"
proof -
  have path: "lookupPath r (CHR ''/'' # q) \<lparr>routers = s', env = e\<rparr> =
      (Inr (Some h), \<lparr>routers = s', env = e\<rparr>)"
    if l: "list_all literal_segment (split_slash q)"
      and g: "register r (CHR ''/'' # q) h s = (Inr (), s')"
  proof -
    obtain out s0 where R: "Route r (CHR ''/'' # q) s = (out, s0)"
      by (cases "Route r (CHR ''/'' # q) s")
    with g obtain b where b: "out = Inr b" and F: "FuncE b (Some h) s0 = (Inr (), s')"
      by (cases out) (auto simp: register_def)
    have rt: "route r (split_slash q) s = (Inr b, s0)"
      using R b by (simp add: Route_def)
    show ?thesis
      using route_FuncE_lookup[OF l rt F, of "\<lparr>routers = s', env = e\<rparr>"]
      by (simp add: lookupPath_def)
  qed
  have segs: "lookup r parts \<lparr>routers = s2, env = e\<rparr> = (Inr (Some h), \<lparr>routers = s2, env = e\<rparr>)"
    if "list_all literal_segment parts" "route r parts s = (Inr a, s1)"
      "FuncE a (Some h) s1 = (Inr (), s2)"
    using route_FuncE_lookup[OF that, of "\<lparr>routers = s2, env = e\<rparr>"] by simp
  show ?thesis using path segs by blast
qed

text \<open>The theorem at \<^verbatim>\<open>r.Route("/foo/").FuncE(F1)\<close> on the zero router.\<close>

theorem register_then_lookup_witness:
  "list_all literal_segment [''foo'', []] \<and>
   route 0 [''foo'', []] (new_tree :: string heap) =
     (Inr 2, snd (route 0 [''foo'', []] new_tree)) \<and>
   FuncE 2 (Some ''F1'') (snd (route 0 [''foo'', []] new_tree)) =
     (Inr (), snd (FuncE 2 (Some ''F1'') (snd (route 0 [''foo'', []] new_tree)))) \<and>
   lookup 0 [''foo'', []]
     \<lparr>routers = snd (FuncE 2 (Some ''F1'') (snd (route 0 [''foo'', []] new_tree))),
      env = Some Map.empty\<rparr> =
     (Inr (Some ''F1''),
      \<lparr>routers = snd (FuncE 2 (Some ''F1'') (snd (route 0 [''foo'', []] new_tree))),
       env = Some Map.empty\<rparr>) \<and>
   list_all literal_segment (split_slash ''foo/'') \<and>
   register 0 ''/foo/'' ''F1'' new_tree = (Inr (), snd (register 0 ''/foo/'' ''F1'' new_tree)) \<and>
   lookupPath 0 ''/foo/''
     \<lparr>routers = snd (register 0 ''/foo/'' ''F1'' new_tree), env = Some Map.empty\<rparr> =
     (Inr (Some ''F1''),
      \<lparr>routers = snd (register 0 ''/foo/'' ''F1'' new_tree), env = Some Map.empty\<rparr>)"
proof -
  have k: "list_all literal_segment [''foo'', []]"
    by (simp add: literal_segment_def variable_segment_def wildcard_segment_def)
  have rt: "route 0 [''foo'', []] (new_tree :: string heap) =
              (Inr 2, snd (route 0 [''foo'', []] new_tree))"
    by (simp add: run)
  have f: "FuncE 2 (Some ''F1'') (snd (route 0 [''foo'', []] new_tree)) =
             (Inr (), snd (FuncE 2 (Some ''F1'') (snd (route 0 [''foo'', []] new_tree))))"
    by (simp add: run)
  have l: "list_all literal_segment (split_slash ''foo/'')"
    by (simp add: literal_segment_def variable_segment_def wildcard_segment_def)
  have g: "register 0 ''/foo/'' ''F1'' new_tree =
             (Inr (), snd (register 0 ''/foo/'' ''F1'' new_tree))"
    by (simp add: run)
  show ?thesis
    using k rt f l g
      register_then_lookup[where parts = "[''foo'', []]" and r = 0 and s = new_tree and a = 2
        and ?s1.0 = "snd (route 0 [''foo'', []] new_tree)" and h = "''F1''"
        and ?s2.0 = "snd (FuncE 2 (Some ''F1'') (snd (route 0 [''foo'', []] new_tree)))"
        and q = "''foo/''" and s' = "snd (register 0 ''/foo/'' ''F1'' new_tree)"
        and e = "Some Map.empty"]
    by blast
qed

section \<open>Lookup: the wildcard branch, exhausted paths and empty segments\<close>

text \<open>
  C3. When the literal and the variable alternative at a node have both returned no
  handler and the node has a wildcard child, lookup binds the key \<open>*\<close> to the
  remaining segments joined with slashes and returns the handler field of the wildcard
  child itself: the outcome depends on nothing below that child. A single empty segment
  joins to the empty string. After registering \<open>/static/*\<close>, a lookup of
  \<open>/static/a/b\<close> binds \<open>*\<close> to \<open>a/b\<close> and a lookup of \<open>/static/\<close> binds it to
  the empty string.
\<close>

theorem wildcard_branch:
  "(literal_alt r seg rest st = (Inr None, st1) \<longrightarrow>
    variable_alt r seg rest st1 = (Inr None, st2) \<longrightarrow>
    deref (routers st) r = Some nd \<longrightarrow>
    fallbackRouter nd = Some fr \<longrightarrow>
    deref (routers st) fr = Some fnd \<longrightarrow>
    env st2 = Some e \<longrightarrow>
    lookup r (seg # rest) st =
      (Inr (handler fnd), st2\<lparr>env := Some (e(''*'' \<mapsto> join_slash (seg # rest)))\<rparr>)) \<and>
   join_slash [[]] = [] \<and>
   fst (register 0 ''/static/*'' h new_tree) = Inr () \<and>
   lookupPath 0 ''/static/a/b''
       \<lparr>routers = snd (register 0 ''/static/*'' h new_tree), env = Some Map.empty\<rparr> =
     (Inr (Some h),
      \<lparr>routers = snd (register 0 ''/static/*'' h new_tree), env = Some [''*'' \<mapsto> ''a/b'']\<rparr>) \<and>
   lookupPath 0 ''/static/''
       \<lparr>routers = snd (register 0 ''/static/*'' h new_tree), env = Some Map.empty\<rparr> =
     (Inr (Some h),
      \<lparr>routers = snd (register 0 ''/static/*'' h new_tree), env = Some [''*'' \<mapsto> []]\<rparr>)"
proof -
  have g: "lookup r (seg # rest) st =
      (Inr (handler fnd), st2\<lparr>env := Some (e(''*'' \<mapsto> join_slash (seg # rest)))\<rparr>)"
    if a: "literal_alt r seg rest st = (Inr None, st1)"
      "variable_alt r seg rest st1 = (Inr None, st2)"
      "deref (routers st) r = Some nd" "fallbackRouter nd = Some fr"
      "deref (routers st) fr = Some fnd" "env st2 = Some e"
  proof -
    have f1: "routers st1 = routers st"
      using literal_alt_frame[of r seg rest st] a(1) by simp
    have f2: "routers st2 = routers st1"
      using variable_alt_frame[of r seg rest st1] a(2) by simp
    have "wildcard_alt r (seg # rest) st2 =
        (Inr (handler fnd), st2\<lparr>env := Some (e(''*'' \<mapsto> join_slash (seg # rest)))\<rparr>)"
      using a(3-6) f1 f2 by (simp add: wildcard_alt_def Let_def)
    then show ?thesis
      unfolding lookup_Cons using a(1,2) by simp
  qed
  have j: "join_slash [[]] = []" by simp
  have c: "fst (register 0 ''/static/*'' h new_tree) = Inr ()"
    by (simp add: run)
  have c1: "lookupPath 0 ''/static/a/b''
       \<lparr>routers = snd (register 0 ''/static/*'' h new_tree), env = Some Map.empty\<rparr> =
     (Inr (Some h),
      \<lparr>routers = snd (register 0 ''/static/*'' h new_tree), env = Some [''*'' \<mapsto> ''a/b'']\<rparr>)"
    by (simp add: run)
  have c2: "lookupPath 0 ''/static/''
       \<lparr>routers = snd (register 0 ''/static/*'' h new_tree), env = Some Map.empty\<rparr> =
     (Inr (Some h),
      \<lparr>routers = snd (register 0 ''/static/*'' h new_tree), env = Some [''*'' \<mapsto> []]\<rparr>)"
    by (simp add: run)
  show ?thesis using g j c c1 c2 by blast
qed

text \<open>
  The theorem at a store built by \<^verbatim>\<open>r.Route("*").Route("b").FuncE(F1)\<close>: the wildcard
  child of the root has no handler of its own and a literal child \<open>b\<close> that has one.
  A lookup of \<open>b\<close> returns no handler, with \<open>*\<close> bound to \<open>b\<close>.
\<close>

theorem wildcard_branch_witness:
  "literal_alt 0 ''b'' []
      \<lparr>routers =
         [\<lparr>matchers = None, varName = [], varRouter = None, handler = None,
            fallbackRouter = Some 1\<rparr>,
          \<lparr>matchers = Some [''b'' \<mapsto> 2], varName = [], varRouter = None, handler = None,
            fallbackRouter = None\<rparr>,
          \<lparr>matchers = None, varName = [], varRouter = None, handler = Some ''F1'',
            fallbackRouter = None\<rparr>],
       env = Some Map.empty\<rparr> =
     (Inr None,
      \<lparr>routers =
         [\<lparr>matchers = None, varName = [], varRouter = None, handler = None,
            fallbackRouter = Some 1\<rparr>,
          \<lparr>matchers = Some [''b'' \<mapsto> 2], varName = [], varRouter = None, handler = None,
            fallbackRouter = None\<rparr>,
          \<lparr>matchers = None, varName = [], varRouter = None, handler = Some ''F1'',
            fallbackRouter = None\<rparr>],
       env = Some Map.empty\<rparr>) \<and>
   lookup 0 [''b'']
      \<lparr>routers =
         [\<lparr>matchers = None, varName = [], varRouter = None, handler = None,
            fallbackRouter = Some 1\<rparr>,
          \<lparr>matchers = Some [''b'' \<mapsto> 2], varName = [], varRouter = None, handler = None,
            fallbackRouter = None\<rparr>,
          \<lparr>matchers = None, varName = [], varRouter = None, handler = Some ''F1'',
            fallbackRouter = None\<rparr>],
       env = Some Map.empty\<rparr> =
     (Inr None,
      \<lparr>routers =
         [\<lparr>matchers = None, varName = [], varRouter = None, handler = None,
            fallbackRouter = Some 1\<rparr>,
          \<lparr>matchers = Some [''b'' \<mapsto> 2], varName = [], varRouter = None, handler = None,
            fallbackRouter = None\<rparr>,
          \<lparr>matchers = None, varName = [], varRouter = None, handler = Some ''F1'',
            fallbackRouter = None\<rparr>],
       env = Some [''*'' \<mapsto> ''b'']\<rparr>)"
proof -
  let ?s = "[\<lparr>matchers = None, varName = [], varRouter = None, handler = None,
            fallbackRouter = Some 1\<rparr>,
          \<lparr>matchers = Some [''b'' \<mapsto> 2], varName = [], varRouter = None, handler = None,
            fallbackRouter = None\<rparr>,
          \<lparr>matchers = None, varName = [], varRouter = None, handler = Some ''F1'',
            fallbackRouter = None\<rparr>]"
  let ?st = "\<lparr>routers = ?s, env = Some Map.empty\<rparr>"
  have l: "literal_alt 0 ''b'' [] ?st = (Inr None, ?st)"
    by (simp add: literal_alt_def deref_def)
  have v: "variable_alt 0 ''b'' [] ?st = (Inr None, ?st)"
    by (simp add: variable_alt_def deref_def)
  have d0: "deref (routers ?st) 0 = Some (?s ! 0)" by (simp add: deref_def)
  have d1: "deref (routers ?st) 1 = Some (?s ! 1)" by (simp add: deref_def)
  have fb: "fallbackRouter (?s ! 0) = Some 1" by simp
  have e: "env ?st = Some Map.empty" by simp
  show ?thesis
    using wildcard_branch[where r = 0 and seg = "''b''" and rest = "[]" and st = ?st
        and ?st1.0 = ?st and ?st2.0 = ?st and nd = "?s ! 0" and fr = 1 and fnd = "?s ! 1"
        and e = Map.empty and h = "''F1''"]
      l v d0 d1 fb e
    by simp
qed

text \<open>
  C4, as stated, fails on the code in its clause about ancestors: a nil result at an
  exhausted node goes back to the caller, which then tries its own remaining
  alternatives. With handlers registered at \<open>/foo/bar/baz\<close> and at \<open>/foo/*\<close>, a
  lookup of \<open>/foo/bar\<close> exhausts the path at the node for \<open>bar\<close>, which has no
  handler; the node for \<open>foo\<close> then falls back to its wildcard child, and the lookup
  returns the wildcard's handler with \<open>*\<close> bound to \<open>bar\<close>.
\<close>

theorem exhausted_path_ancestor_wildcard_counterexample:
  "fst (register 0 ''/foo/bar/baz'' ''F1'' new_tree) = Inr () \<and>
   fst (register 0 ''/foo/*'' ''F2'' (snd (register 0 ''/foo/bar/baz'' ''F1'' new_tree))) = Inr () \<and>
   child (snd (register 0 ''/foo/*'' ''F2'' (snd (register 0 ''/foo/bar/baz'' ''F1'' new_tree))))
     0 ''foo'' = Some 1 \<and>
   child (snd (register 0 ''/foo/*'' ''F2'' (snd (register 0 ''/foo/bar/baz'' ''F1'' new_tree))))
     1 ''bar'' = Some 2 \<and>
   fallbackRouter
     (snd (register 0 ''/foo/*'' ''F2'' (snd (register 0 ''/foo/bar/baz'' ''F1'' new_tree))) ! 1) =
     Some 4 \<and>
   lookup 2 []
     \<lparr>routers = snd (register 0 ''/foo/*'' ''F2'' (snd (register 0 ''/foo/bar/baz'' ''F1'' new_tree))),
      env = Some Map.empty\<rparr> =
     (Inr None,
      \<lparr>routers = snd (register 0 ''/foo/*'' ''F2'' (snd (register 0 ''/foo/bar/baz'' ''F1'' new_tree))),
       env = Some Map.empty\<rparr>) \<and>
   lookupPath 0 ''/foo/bar''
     \<lparr>routers = snd (register 0 ''/foo/*'' ''F2'' (snd (register 0 ''/foo/bar/baz'' ''F1'' new_tree))),
      env = Some Map.empty\<rparr> =
     (Inr (Some ''F2''),
      \<lparr>routers = snd (register 0 ''/foo/*'' ''F2'' (snd (register 0 ''/foo/bar/baz'' ''F1'' new_tree))),
       env = Some [''*'' \<mapsto> ''bar'']\<rparr>)"
  by (simp add: run child_def)

text \<open>
  C4, amended. When the path is exhausted at a node, the lookup call at that node
  returns that node's handler field and leaves the state as it was: it succeeds exactly
  when the node has a handler, and the node's own wildcard child is never consulted, so
  the result is the same whatever that child is. After registering \<open>/static/*\<close>, a
  lookup of \<open>/static\<close> returns the nil handler as an ordinary result, not a panic, and
  writes nothing.
\<close>

theorem exhausted_path_needs_own_handler:
  "(deref (routers st) r = Some nd \<longrightarrow> lookup r [] st = (Inr (handler nd), st)) \<and>
   (deref (routers st) r = Some nd \<longrightarrow>
      fst (lookup r [] (st\<lparr>routers := (routers st)[r := nd\<lparr>fallbackRouter := fb\<rparr>]\<rparr>)) =
        Inr (handler nd)) \<and>
   fst (register 0 ''/static/*'' h new_tree) = Inr () \<and>
   lookupPath 0 ''/static'' \<lparr>routers = snd (register 0 ''/static/*'' h new_tree), env = e\<rparr> =
     (Inr None, \<lparr>routers = snd (register 0 ''/static/*'' h new_tree), env = e\<rparr>)"
proof -
  have a: "lookup r [] st = (Inr (handler nd), st)" if "deref (routers st) r = Some nd"
    using that by simp
  have b: "fst (lookup r [] (st\<lparr>routers := (routers st)[r := nd\<lparr>fallbackRouter := fb\<rparr>]\<rparr>)) =
        Inr (handler nd)" if "deref (routers st) r = Some nd"
    using that by (simp add: deref_def split: if_splits)
  have c: "fst (register 0 ''/static/*'' h new_tree) = Inr ()"
    by (simp add: run)
  have d: "lookupPath 0 ''/static'' \<lparr>routers = snd (register 0 ''/static/*'' h new_tree), env = e\<rparr> =
     (Inr None, \<lparr>routers = snd (register 0 ''/static/*'' h new_tree), env = e\<rparr>)"
    by (simp add: run)
  show ?thesis using a b c d by blast
qed

text \<open>
  The theorem at the node for \<open>static\<close> of that tree: the lookup returns no handler
  with the wildcard child in place, and also with the wildcard child removed.
\<close>

theorem exhausted_path_needs_own_handler_witness:
  "deref (snd (register 0 ''/static/*'' ''staticHandler'' new_tree)) 1 =
     Some \<lparr>matchers = None, varName = [], varRouter = None, handler = None,
           fallbackRouter = Some 2\<rparr> \<and>
   lookup 1 []
       \<lparr>routers = snd (register 0 ''/static/*'' ''staticHandler'' new_tree),
        env = Some Map.empty\<rparr> =
     (Inr None,
      \<lparr>routers = snd (register 0 ''/static/*'' ''staticHandler'' new_tree),
       env = Some Map.empty\<rparr>) \<and>
   fst (lookup 1 []
       \<lparr>routers = (snd (register 0 ''/static/*'' ''staticHandler'' new_tree))
          [1 := \<lparr>matchers = None, varName = [], varRouter = None, handler = None,
                 fallbackRouter = None\<rparr>],
        env = Some Map.empty\<rparr>) = Inr None"
proof -
  let ?s = "snd (register 0 ''/static/*'' ''staticHandler'' new_tree)"
  let ?nd = "\<lparr>matchers = None, varName = [], varRouter = None,
               handler = None :: string option, fallbackRouter = Some 2\<rparr>"
  have d: "deref ?s 1 = Some ?nd"
    by (simp add: run numeral_2_eq_2)
  show ?thesis
    using d exhausted_path_needs_own_handler[where st = "\<lparr>routers = ?s, env = Some Map.empty\<rparr>" and r = 1
        and nd = ?nd and fb = None and h = "''staticHandler''" and e = "Some Map.empty"]
    by simp
qed

text \<open>
  C5. A variable child never matches an empty head segment. At a node without a literal
  child for the empty segment and without a wildcard child, a lookup whose head segment
  is empty returns no handler and leaves the state as it was, whatever variable child the
  node has; the variable alternative itself does nothing on an empty segment. After
  registering \<open>/foo/:id\<close>, a lookup of \<open>/foo/bar\<close> returns the handler with \<open>id\<close>
  bound to \<open>bar\<close>, and a lookup of \<open>/foo/\<close> returns no handler and leaves the capture
  map empty.
\<close>

theorem variable_skips_empty_segment:
  "(deref (routers st) r = Some nd \<longrightarrow> child (routers st) r [] = None \<longrightarrow>
      fallbackRouter nd = None \<longrightarrow> lookup r ([] # rest) st = (Inr None, st)) \<and>
   variable_alt r [] rest st = (Inr None, st) \<and>
   fst (register 0 ''/foo/:id'' h new_tree) = Inr () \<and>
   lookupPath 0 ''/foo/bar''
       \<lparr>routers = snd (register 0 ''/foo/:id'' h new_tree), env = Some Map.empty\<rparr> =
     (Inr (Some h),
      \<lparr>routers = snd (register 0 ''/foo/:id'' h new_tree), env = Some [''id'' \<mapsto> ''bar'']\<rparr>) \<and>
   lookupPath 0 ''/foo/''
       \<lparr>routers = snd (register 0 ''/foo/:id'' h new_tree), env = Some Map.empty\<rparr> =
     (Inr None,
      \<lparr>routers = snd (register 0 ''/foo/:id'' h new_tree), env = Some Map.empty\<rparr>)"
proof -
  have g: "lookup r ([] # rest) st = (Inr None, st)"
    if "deref (routers st) r = Some nd" "child (routers st) r [] = None" "fallbackRouter nd = None"
  proof -
    have "literal_alt r [] rest st = (Inr None, st)"
      using that(1,2) by (simp add: literal_alt_def child_def split: option.splits)
    moreover have "variable_alt r [] rest st = (Inr None, st)"
      by (simp add: variable_alt_def)
    moreover have "wildcard_alt r ([] # rest) st = (Inr None, st)"
      using that(1,3) by (simp add: wildcard_alt_def)
    ultimately show ?thesis unfolding lookup_Cons by simp
  qed
  have v: "variable_alt r [] rest st = (Inr None, st)"
    by (simp add: variable_alt_def)
  have c: "fst (register 0 ''/foo/:id'' h new_tree) = Inr ()"
    by (simp add: run)
  have c1: "lookupPath 0 ''/foo/bar''
       \<lparr>routers = snd (register 0 ''/foo/:id'' h new_tree), env = Some Map.empty\<rparr> =
     (Inr (Some h),
      \<lparr>routers = snd (register 0 ''/foo/:id'' h new_tree), env = Some [''id'' \<mapsto> ''bar'']\<rparr>)"
    by (simp add: run)
  have c2: "lookupPath 0 ''/foo/''
       \<lparr>routers = snd (register 0 ''/foo/:id'' h new_tree), env = Some Map.empty\<rparr> =
     (Inr None,
      \<lparr>routers = snd (register 0 ''/foo/:id'' h new_tree), env = Some Map.empty\<rparr>)"
    by (simp add: run)
  show ?thesis using g v c c1 c2 by blast
qed

text \<open>The theorem at the node for \<open>foo\<close> of that tree, which has the variable child.\<close>

theorem variable_skips_empty_segment_witness:
  "deref (snd (register 0 ''/foo/:id'' ''F1'' new_tree)) 1 =
     Some \<lparr>matchers = None, varName = ''id'', varRouter = Some 2, handler = None,
           fallbackRouter = None\<rparr> \<and>
   child (snd (register 0 ''/foo/:id'' ''F1'' new_tree)) 1 [] = None \<and>
   lookup 1 [[]]
       \<lparr>routers = snd (register 0 ''/foo/:id'' ''F1'' new_tree), env = Some Map.empty\<rparr> =
     (Inr None,
      \<lparr>routers = snd (register 0 ''/foo/:id'' ''F1'' new_tree), env = Some Map.empty\<rparr>)"
proof -
  let ?s = "snd (register 0 ''/foo/:id'' ''F1'' new_tree)"
  let ?nd = "\<lparr>matchers = None, varName = ''id'', varRouter = Some 2,
               handler = None :: string option, fallbackRouter = None\<rparr>"
  have d: "deref ?s 1 = Some ?nd"
    by (simp add: run numeral_2_eq_2)
  have c: "child ?s 1 [] = None"
    by (simp add: run child_def)
  show ?thesis
    using d c variable_skips_empty_segment[where st = "\<lparr>routers = ?s, env = Some Map.empty\<rparr>" and r = 1
        and nd = ?nd and rest = "[]" and h = "''F1''"]
    by simp
qed

text \<open>
  C8. A capture written by a variable branch that is then abandoned stays in the map.
  With handlers registered at \<open>/foo/:id/x\<close> and at \<open>/foo/*\<close>, a lookup of
  \<open>/foo/bar/y\<close> started with an empty map returns the wildcard's handler, and the map
  it leaves binds \<open>id\<close> to \<open>bar\<close> next to \<open>*\<close> bound to \<open>bar/y\<close>.
\<close>

theorem abandoned_variable_capture_stays:
  "fst (register 0 ''/foo/:id/x'' h1 new_tree) = Inr () \<and>
   fst (register 0 ''/foo/*'' h2 (snd (register 0 ''/foo/:id/x'' h1 new_tree))) = Inr () \<and>
   fst (lookupPath 0 ''/foo/bar/y''
         \<lparr>routers = snd (register 0 ''/foo/*'' h2 (snd (register 0 ''/foo/:id/x'' h1 new_tree))),
          env = Some Map.empty\<rparr>) = Inr (Some h2) \<and>
   env (snd (lookupPath 0 ''/foo/bar/y''
         \<lparr>routers = snd (register 0 ''/foo/*'' h2 (snd (register 0 ''/foo/:id/x'' h1 new_tree))),
          env = Some Map.empty\<rparr>)) = Some [''id'' \<mapsto> ''bar'', ''*'' \<mapsto> ''bar/y'']"
  by (simp add: run)

section \<open>Registration: variable names and segments after a wildcard\<close>

text \<open>
  C6, as stated for every name, fails on the code: the conflict test of route compares
  names only when the stored name is not empty. After \<^verbatim>\<open>Route(":")\<close> the root has a
  variable child stored under the empty name, and \<^verbatim>\<open>Route(":other")\<close> then returns that
  child instead of panicking.
\<close>

theorem variable_name_conflict_counterexample:
  "fst (Route 0 '':'' (new_tree :: string heap)) = Inr 1 \<and>
   varName (snd (Route 0 '':'' (new_tree :: string heap)) ! 0) = [] \<and>
   varRouter (snd (Route 0 '':'' (new_tree :: string heap)) ! 0) = Some 1 \<and>
   ''other'' \<noteq> varName (snd (Route 0 '':'' (new_tree :: string heap)) ! 0) \<and>
   fst (Route 0 '':other'' (snd (Route 0 '':'' (new_tree :: string heap)))) = Inr 1"
  by (simp add: run)

text \<open>
  C6, amended. At a node whose variable child is stored under a non-empty name, the
  registration of a variable segment with a different name panics with the store
  untouched, and the registration of the same name goes on in the existing variable
  child.
\<close>

theorem variable_name_conflict:
  assumes "deref s r = Some nd" and "varRouter nd = Some vr" and "varName nd \<noteq> []"
  shows "(name \<noteq> varName nd \<longrightarrow>
            route r ((CHR '':'' # name) # rest) s = (Inl Overlapping_vars, s)) \<and>
         route r ((CHR '':'' # varName nd) # rest) s = route vr rest s"
  using assms by (simp add: route_var variable_segment_def)

text \<open>
  The theorem at the node for \<open>foo\<close> after \<^verbatim>\<open>Route("/foo/:id")\<close>: registering
  \<open>/foo/:other\<close> panics, registering \<open>:id\<close> again returns the existing child.
\<close>

theorem variable_name_conflict_witness:
  "deref (snd (Route 0 ''/foo/:id'' (new_tree :: string heap))) 1 =
     Some \<lparr>matchers = None, varName = ''id'', varRouter = Some 2, handler = None,
           fallbackRouter = None\<rparr> \<and>
   route 1 ['':other''] (snd (Route 0 ''/foo/:id'' (new_tree :: string heap))) =
     (Inl Overlapping_vars, snd (Route 0 ''/foo/:id'' (new_tree :: string heap))) \<and>
   route 1 ['':id''] (snd (Route 0 ''/foo/:id'' (new_tree :: string heap))) =
     (Inr 2, snd (Route 0 ''/foo/:id'' (new_tree :: string heap))) \<and>
   fst (Route 0 ''/foo/:other'' (snd (Route 0 ''/foo/:id'' (new_tree :: string heap)))) =
     Inl Overlapping_vars"
proof -
  let ?s = "snd (Route 0 ''/foo/:id'' (new_tree :: string heap))"
  let ?nd = "\<lparr>matchers = None, varName = ''id'', varRouter = Some 2,
               handler = None :: string option, fallbackRouter = None\<rparr>"
  have d: "deref ?s 1 = Some ?nd"
    by (simp add: run numeral_2_eq_2)
  have t: "fst (Route 0 ''/foo/:other'' ?s) = Inl Overlapping_vars"
    by (simp add: run)
  show ?thesis
    using d t variable_name_conflict[where s = ?s and r = 1 and nd = ?nd and vr = 2
        and name = "''other''" and rest = "[]"]
    by simp
qed

text \<open>
  C7, as stated, fails on the code: route returns as soon as it has created the wildcard
  child, so the segments after a star are dropped. \<^verbatim>\<open>Route("/a/*/b")\<close> on the zero
  router returns the wildcard child of \<open>a\<close>; the store then holds three routers, and
  the wildcard child has no literal child \<open>b\<close>.
\<close>

theorem segments_after_wildcard_counterexample:
  "fst (Route 0 ''/a/*/b'' (new_tree :: string heap)) = Inr 2 \<and>
   length (snd (Route 0 ''/a/*/b'' (new_tree :: string heap))) = 3 \<and>
   fallbackRouter (snd (Route 0 ''/a/*/b'' (new_tree :: string heap)) ! 1) = Some 2 \<and>
   child (snd (Route 0 ''/a/*/b'' (new_tree :: string heap))) 2 ''b'' = None"
  by (simp add: run child_def)

text \<open>
  C7, amended. At a node without a wildcard child, registering a star segment followed
  by any further segments is accepted without a panic: route creates the wildcard child
  as a zero router, returns it, and ignores the segments after the star, so no router is
  created for them.
\<close>

theorem wildcard_ends_registration:
  assumes "deref s r = Some nd" and "fallbackRouter nd = None"
  shows "route r (''*'' # rest) s =
           (Inr (length s), s[r := nd\<lparr>fallbackRouter := Some (length s)\<rparr>] @ [zero_Router])"
  using assms by (simp add: route_star)

text \<open>The theorem at the node for \<open>a\<close>, with the segment \<open>b\<close> after the star.\<close>

theorem wildcard_ends_registration_witness:
  "deref (snd (Route 0 ''a'' (new_tree :: string heap))) 1 = Some zero_Router \<and>
   fallbackRouter (zero_Router :: string Router) = None \<and>
   route 1 [''*'', ''b''] (snd (Route 0 ''a'' (new_tree :: string heap))) =
     (Inr 2,
      (snd (Route 0 ''a'' (new_tree :: string heap)))
        [1 := zero_Router\<lparr>fallbackRouter := Some 2\<rparr>] @ [zero_Router])"
proof -
  let ?s = "snd (Route 0 ''a'' (new_tree :: string heap))"
  have d: "deref ?s 1 = Some zero_Router"
    by (simp add: run)
  have f: "fallbackRouter (zero_Router :: string Router) = None"
    by (simp add: zero_Router_def)
  have n: "length ?s = 2"
    by (simp add: run)
  show ?thesis
    using d f wildcard_ends_registration[OF d f, of "[''b'']"] unfolding n by simp
qed

text \<open>
  C10. At a node without a variable child, registering the segment \<open>:\<close> creates a
  variable child stored under the empty name. At a node whose variable child is stored
  under the empty name, the registration of a variable segment of any name is accepted
  at that node: it goes on in the existing child and leaves the store, and with it the
  empty stored name, as it was.
\<close>

theorem empty_variable_name:
  assumes "deref s r = Some nd" and "varName nd = []"
  shows "(varRouter nd = None \<longrightarrow>
            route r ['':''] s =
              (Inr (length s),
               s[r := nd\<lparr>varName := [], varRouter := Some (length s)\<rparr>] @ [zero_Router])) \<and>
         (varRouter nd = Some vr \<longrightarrow>
            route r ((CHR '':'' # name) # rest) s = route vr rest s)"
  using assms by (simp add: route_var variable_segment_def)

text \<open>The theorem on the zero router: \<^verbatim>\<open>Route(":")\<close>, then \<^verbatim>\<open>Route(":other")\<close>.\<close>

theorem empty_variable_name_witness:
  "deref (new_tree :: string heap) 0 = Some zero_Router \<and>
   Route 0 '':'' (new_tree :: string heap) =
     (Inr 1, [zero_Router\<lparr>varName := [], varRouter := Some 1\<rparr>, zero_Router]) \<and>
   Route 0 '':other'' [zero_Router\<lparr>varName := [], varRouter := Some 1\<rparr>, zero_Router :: string Router] =
     (Inr 1, [zero_Router\<lparr>varName := [], varRouter := Some 1\<rparr>, zero_Router])"
proof -
  let ?s1 = "[zero_Router\<lparr>varName := [], varRouter := Some 1\<rparr>, zero_Router :: string Router]"
  have d0: "deref (new_tree :: string heap) 0 = Some zero_Router"
    by (simp add: new_tree_def deref_def)
  have v0: "varName (zero_Router :: string Router) = []" "varRouter (zero_Router :: string Router) = None"
    by (simp_all add: zero_Router_def)
  have d1: "deref ?s1 0 = Some (zero_Router\<lparr>varName := [], varRouter := Some 1\<rparr>)"
    by (simp add: deref_def)
  have a: "route 0 ['':''] (new_tree :: string heap) = (Inr 1, ?s1)"
    using empty_variable_name[OF d0 v0(1), of 0 "[]" "[]"] v0(2) by (simp add: new_tree_def)
  have b: "route 0 ['':other''] ?s1 = (Inr 1, ?s1)"
    using empty_variable_name[OF d1, of 1 "''other''" "[]"] by simp
  show ?thesis using d0 a b by (simp add: Route_def)
qed

end
